theory Spec2Isabelle
  imports Main
begin

section \<open>Shared-secret check of the cron trigger (lib/vapi/security.ts)\<close>

text \<open>
  The process environment as far as \<open>verifyCronSecret\<close> reads it. A variable that is
  not set is \<open>None\<close>.
\<close>

record security_env =
  CRON_SECRET :: "string option"
  NODE_ENV :: "string option"

text \<open>
  JavaScript truthiness of a \<open>string | null | undefined\<close>: \<open>!x\<close> holds for an absent
  value and for the empty string.
\<close>

definition falsy :: "string option \<Rightarrow> bool" where
  "falsy x = (case x of None \<Rightarrow> True | Some v \<Rightarrow> v = [])"

text \<open>\<open>a || b\<close> on optional strings.\<close>

definition or_else :: "string option \<Rightarrow> string option \<Rightarrow> string option" where
  "or_else a b = (if falsy a then b else a)"

text \<open>
  \<open>crypto.timingSafeEqual\<close> on two buffers of the same length: byte-wise equality. A
  string is modelled by its UTF-8 bytes, which is what \<open>Buffer.from(s, 'utf8')\<close> holds.
\<close>

definition timingSafeEqual :: "string \<Rightarrow> string \<Rightarrow> bool" where
  "timingSafeEqual a b = (a = b)"

definition verifyCronSecret :: "security_env \<Rightarrow> string option \<Rightarrow> string option \<Rightarrow> bool" where
  "verifyCronSecret env secret expectedSecret =
     (case secret of
        None \<Rightarrow> False
      | Some secretBuffer \<Rightarrow>
          if secretBuffer = [] then False
          else
            let expected = or_else expectedSecret (CRON_SECRET env) in
            (case expected of
               None \<Rightarrow> NODE_ENV env = Some ''development''
             | Some expectedBuffer \<Rightarrow>
                 if expectedBuffer = [] then NODE_ENV env = Some ''development''
                 else if length secretBuffer \<noteq> length expectedBuffer then False
                 else timingSafeEqual secretBuffer expectedBuffer))"

section \<open>The call record store (Prisma models used by lib/services/proactive)\<close>

text \<open>
  Instants are JavaScript \<open>Date\<close> values: milliseconds since the epoch. Row identifiers
  are generated by the store; they are modelled as natural numbers.
\<close>

type_synonym time = int
type_synonym ident = nat

datatype reservation_status = CONFIRMED | CHECKED_IN | CHECKED_OUT | CANCELLED

datatype call_type = PRE_ARRIVAL | WAKE_UP | MID_STAY | PRE_CHECKOUT | POST_STAY

datatype call_status = SCHEDULED | IN_PROGRESS | ENDED | FAILED

datatype wake_up_status = PENDING | WU_COMPLETED | WU_FAILED

record guest =
  g_id :: ident
  g_externalId :: "string option"
  g_firstName :: string
  g_lastName :: string
  g_email :: "string option"
  g_phone :: string
  g_preferredLanguage :: string
  g_vipStatus :: bool

record reservation =
  r_id :: ident
  r_externalId :: "string option"
  r_guestId :: ident
  r_roomNumber :: "string option"
  r_roomType :: string
  r_checkInDate :: time
  r_checkOutDate :: time
  r_status :: reservation_status
  r_numberOfGuests :: int
  r_specialRequests :: "string option"

record proactive_call =
  pc_id :: ident
  pc_reservationId :: ident
  pc_callType :: call_type
  pc_scheduledTime :: time
  pc_actualTime :: "time option"
  pc_status :: call_status
  pc_attempts :: int
  pc_maxAttempts :: int
  pc_vapiCallId :: "string option"
  pc_notes :: "string option"

record wake_up_request =
  w_id :: ident
  w_roomNumber :: string
  w_requestedTime :: time
  w_status :: wake_up_status
  w_attempts :: int
  w_completedAt :: "time option"

record store =
  guests :: "guest list"
  reservations :: "reservation list"
  proactiveCalls :: "proactive_call list"
  wakeUpRequests :: "wake_up_request list"

text \<open>An identifier that no row of the table carries.\<close>

definition fresh_id :: "ident list \<Rightarrow> ident" where
  "fresh_id ids = Suc (fold max ids 0)"

subsection \<open>date-fns on instants\<close>

text \<open>
  The calendar functions are taken in a time zone with a fixed zero offset: a day is
  86400000 ms and starts at a multiple of it.
\<close>

definition msPerHour :: int where
  "msPerHour = 3600000"

definition msPerDay :: int where
  "msPerDay = 86400000"

definition startOfDay :: "time \<Rightarrow> time" where
  "startOfDay t = t - t mod msPerDay"

definition addDays :: "time \<Rightarrow> int \<Rightarrow> time" where
  "addDays t n = t + n * msPerDay"

definition subDays :: "time \<Rightarrow> int \<Rightarrow> time" where
  "subDays t n = t - n * msPerDay"

definition addHours :: "time \<Rightarrow> int \<Rightarrow> time" where
  "addHours t n = t + n * msPerHour"

definition isAfter :: "time \<Rightarrow> time \<Rightarrow> bool" where
  "isAfter a b = (a > b)"

text \<open>\<open>d.setHours(h, 0, 0, 0)\<close>: the same day at \<open>h\<close> o'clock.\<close>

definition setHours :: "time \<Rightarrow> int \<Rightarrow> time" where
  "setHours d h = startOfDay d + h * msPerHour"

section \<open>Scheduling engine\<close>

text \<open>
  Modelled from the spec: the column defaults of the ProactiveCall model. The Prisma
  schema is not among the sources; \<open>prisma.proactiveCall.create\<close> is called without
  \<open>attempts\<close> and \<open>maxAttempts\<close>, and the spec gives a new job an attempt count of 0
  and a max-attempt count of 3.
\<close>

definition defaultAttempts :: int where
  "defaultAttempts = 0"

definition defaultMaxAttempts :: int where
  "defaultMaxAttempts = 3"

text \<open>
  \<open>prisma.proactiveCall.create\<close> with the four fields the scheduling functions pass; the
  other columns take their defaults and the store generates the identifier.
\<close>

definition proactiveCall_create ::
  "ident \<Rightarrow> call_type \<Rightarrow> time \<Rightarrow> call_status \<Rightarrow> store \<Rightarrow> store" where
  "proactiveCall_create reservationId callType scheduledTime status s =
     s\<lparr>proactiveCalls := proactiveCalls s @
        [\<lparr>pc_id = fresh_id (map pc_id (proactiveCalls s)),
          pc_reservationId = reservationId,
          pc_callType = callType,
          pc_scheduledTime = scheduledTime,
          pc_actualTime = None,
          pc_status = status,
          pc_attempts = defaultAttempts,
          pc_maxAttempts = defaultMaxAttempts,
          pc_vapiCallId = None,
          pc_notes = None\<rparr>]\<rparr>"

text \<open>The relation filter \<open>proactiveCalls: { none: { callType } }\<close> of a reservation.\<close>

definition noneOfType :: "store \<Rightarrow> call_type \<Rightarrow> reservation \<Rightarrow> bool" where
  "noneOfType s callType r =
     (\<not> list_ex (\<lambda>c. pc_reservationId c = r_id r \<and> pc_callType c = callType) (proactiveCalls s))"

text \<open>
  The body shared by the four scheduling loops: one \<open>create\<close> per selected reservation,
  counting them. The selected reservations were read before the loop.
\<close>

fun createCalls :: "call_type \<Rightarrow> time \<Rightarrow> reservation list \<Rightarrow> store \<Rightarrow> nat \<Rightarrow> store \<times> nat" where
  "createCalls callType scheduledTime [] s scheduledCount = (s, scheduledCount)"
| "createCalls callType scheduledTime (reservation # rest) s scheduledCount =
     createCalls callType scheduledTime rest
       (proactiveCall_create (r_id reservation) callType scheduledTime SCHEDULED s)
       (scheduledCount + 1)"

text \<open>
  Each function reads the clock once per use; one invocation is modelled at a single
  instant \<open>now\<close>.
\<close>

definition preArrivalDue :: "time \<Rightarrow> store \<Rightarrow> reservation list" where
  "preArrivalDue now s =
     (let tomorrow = addDays (startOfDay now) 1;
          dayAfterTomorrow = addDays tomorrow 1
      in filter (\<lambda>r. r_status r = CONFIRMED
                   \<and> tomorrow \<le> r_checkInDate r \<and> r_checkInDate r < dayAfterTomorrow
                   \<and> noneOfType s PRE_ARRIVAL r) (reservations s))"

definition schedulePreArrivalCalls :: "time \<Rightarrow> store \<Rightarrow> store \<times> nat" where
  "schedulePreArrivalCalls now s =
     (let scheduledTime =
            (if isAfter now (setHours now 16) then addHours now 1 else setHours now 16)
      in createCalls PRE_ARRIVAL scheduledTime (preArrivalDue now s) s 0)"

definition midStayDue :: "time \<Rightarrow> store \<Rightarrow> reservation list" where
  "midStayDue now s =
     (let yesterday = subDays (startOfDay now) 1;
          twoDaysAgo = subDays yesterday 1
      in filter (\<lambda>r. r_status r = CHECKED_IN
                   \<and> twoDaysAgo \<le> r_checkInDate r \<and> r_checkInDate r < yesterday
                   \<and> noneOfType s MID_STAY r) (reservations s))"

definition scheduleMidStayCalls :: "time \<Rightarrow> store \<Rightarrow> store \<times> nat" where
  "scheduleMidStayCalls now s =
     (let scheduledTime =
            (if isAfter now (setHours now 14) then addHours now 1 else setHours now 14)
      in createCalls MID_STAY scheduledTime (midStayDue now s) s 0)"

definition preCheckoutDue :: "time \<Rightarrow> store \<Rightarrow> reservation list" where
  "preCheckoutDue now s =
     (let today = startOfDay now;
          tomorrow = addDays today 1
      in filter (\<lambda>r. r_status r = CHECKED_IN
                   \<and> today \<le> r_checkOutDate r \<and> r_checkOutDate r < tomorrow
                   \<and> noneOfType s PRE_CHECKOUT r) (reservations s))"

definition schedulePreCheckoutCalls :: "time \<Rightarrow> store \<Rightarrow> store \<times> nat" where
  "schedulePreCheckoutCalls now s =
     (let scheduledTime = (if isAfter now (setHours now 8) then now else setHours now 8)
      in createCalls PRE_CHECKOUT scheduledTime (preCheckoutDue now s) s 0)"

definition postStayDue :: "time \<Rightarrow> store \<Rightarrow> reservation list" where
  "postStayDue now s =
     (let twoDaysAgo = subDays (startOfDay now) 2;
          threeDaysAgo = subDays twoDaysAgo 1
      in filter (\<lambda>r. r_status r = CHECKED_OUT
                   \<and> threeDaysAgo \<le> r_checkOutDate r \<and> r_checkOutDate r < twoDaysAgo
                   \<and> noneOfType s POST_STAY r) (reservations s))"

definition schedulePostStayCalls :: "time \<Rightarrow> store \<Rightarrow> store \<times> nat" where
  "schedulePostStayCalls now s =
     createCalls POST_STAY (setHours now 14) (postStayDue now s) s 0"

text \<open>
  A sequence of scheduling invocations, executed one after the other, each at its own
  instant.
\<close>

datatype sched_op = SchedulePreArrival | ScheduleMidStay | SchedulePreCheckout | SchedulePostStay

fun runSchedulingOp :: "sched_op \<Rightarrow> time \<Rightarrow> store \<Rightarrow> store" where
  "runSchedulingOp SchedulePreArrival now s = fst (schedulePreArrivalCalls now s)"
| "runSchedulingOp ScheduleMidStay now s = fst (scheduleMidStayCalls now s)"
| "runSchedulingOp SchedulePreCheckout now s = fst (schedulePreCheckoutCalls now s)"
| "runSchedulingOp SchedulePostStay now s = fst (schedulePostStayCalls now s)"

fun runScheduling :: "(sched_op \<times> time) list \<Rightarrow> store \<Rightarrow> store" where
  "runScheduling [] s = s"
| "runScheduling ((op, now) # rest) s = runScheduling rest (runSchedulingOp op now s)"

text \<open>The number of ProactiveCall rows of a (reservation, call-type) pair.\<close>

definition rowsFor :: "store \<Rightarrow> ident \<Rightarrow> call_type \<Rightarrow> nat" where
  "rowsFor s reservationId callType =
     length (filter (\<lambda>c. pc_reservationId c = reservationId \<and> pc_callType c = callType)
               (proactiveCalls s))"

section \<open>Outbound call gateway\<close>

text \<open>
  \<open>makeOutboundCall\<close> returns its failure, it never throws. The HTTP request it sends is
  the external collaborator: its outcome is given from outside, \<open>Inr\<close> the call handle
  of the response or \<open>Inl\<close> the message of the error that \<open>axios.post\<close> threw.
\<close>

record vapi_env =
  VAPI_API_KEY :: "string option"
  VAPI_PHONE_NUMBER_ID :: "string option"

datatype gateway_result = Success string | Failure string

definition makeOutboundCall :: "vapi_env \<Rightarrow> string + string \<Rightarrow> gateway_result" where
  "makeOutboundCall env response =
     (if falsy (VAPI_API_KEY env) \<or> falsy (VAPI_PHONE_NUMBER_ID env)
      then Failure ''VAPI not configured''
      else (case response of
              Inr callId \<Rightarrow> Success callId
            | Inl message \<Rightarrow> Failure message))"

section \<open>Dispatch engine\<close>

text \<open>
  \<open>prisma.proactiveCall.update\<close> by identifier. The rows it is applied to were read in
  the same invocation and rows are never deleted, so the row exists.
\<close>

definition proactiveCall_update ::
  "ident \<Rightarrow> (proactive_call \<Rightarrow> proactive_call) \<Rightarrow> store \<Rightarrow> store" where
  "proactiveCall_update i f s =
     s\<lparr>proactiveCalls := map (\<lambda>c. if pc_id c = i then f c else c) (proactiveCalls s)\<rparr>"

text \<open>\<open>findUnique\<close> by identifier, used to read a job back.\<close>

definition findCall :: "ident \<Rightarrow> store \<Rightarrow> proactive_call option" where
  "findCall i s = find (\<lambda>c. pc_id c = i) (proactiveCalls s)"

text \<open>
  The due-job query: the \<open>where\<close> filter, \<open>orderBy scheduledTime asc\<close>, \<open>take 10\<close>. The
  optional call-type filter is absent for \<open>None\<close>.
\<close>

definition duePredicate :: "call_type option \<Rightarrow> time \<Rightarrow> proactive_call \<Rightarrow> bool" where
  "duePredicate callType now c =
     (pc_status c = SCHEDULED \<and> pc_scheduledTime c \<le> now \<and> pc_attempts c < 3
      \<and> (case callType of None \<Rightarrow> True | Some ct \<Rightarrow> pc_callType c = ct))"

definition dueCalls :: "call_type option \<Rightarrow> time \<Rightarrow> store \<Rightarrow> proactive_call list" where
  "dueCalls callType now s =
     take 10 (sort_key pc_scheduledTime (filter (duePredicate callType now) (proactiveCalls s)))"

text \<open>
  The loop over the batch. \<open>post call\<close> is the outcome of the HTTP request sent for
  the job \<open>call\<close>. The failure branch computes \<open>newAttempts\<close> from the row as it was read
  by the query.
\<close>

fun processLoop ::
  "time \<Rightarrow> vapi_env \<Rightarrow> (proactive_call \<Rightarrow> string + string) \<Rightarrow> proactive_call list
     \<Rightarrow> store \<Rightarrow> nat \<Rightarrow> store \<times> nat" where
  "processLoop now env post [] s processedCount = (s, processedCount)"
| "processLoop now env post (call # rest) s processedCount =
     (let s1 = proactiveCall_update (pc_id call)
                 (\<lambda>c. c\<lparr>pc_status := IN_PROGRESS,
                        pc_attempts := pc_attempts c + 1,
                        pc_actualTime := Some now\<rparr>) s
      in case makeOutboundCall env (post call) of
           Success callId \<Rightarrow>
             processLoop now env post rest
               (proactiveCall_update (pc_id call) (\<lambda>c. c\<lparr>pc_vapiCallId := Some callId\<rparr>) s1)
               (processedCount + 1)
         | Failure error \<Rightarrow>
             (let newAttempts = pc_attempts call + 1
              in processLoop now env post rest
                   (proactiveCall_update (pc_id call)
                      (\<lambda>c. c\<lparr>pc_status :=
                               (if newAttempts \<ge> pc_maxAttempts call then FAILED else SCHEDULED),
                             pc_notes := Some error,
                             pc_scheduledTime := addHours now 1\<rparr>) s1)
                   processedCount))"

definition processScheduledCalls ::
  "call_type option \<Rightarrow> time \<Rightarrow> vapi_env \<Rightarrow> (proactive_call \<Rightarrow> string + string)
     \<Rightarrow> store \<Rightarrow> store \<times> nat" where
  "processScheduledCalls callType now env post s =
     processLoop now env post (dueCalls callType now s) s 0"

text \<open>The gateway accepted the call placed for a job.\<close>

definition accepted :: "vapi_env \<Rightarrow> (proactive_call \<Rightarrow> string + string) \<Rightarrow> proactive_call \<Rightarrow> bool" where
  "accepted env post call =
     (case makeOutboundCall env (post call) of Success callId \<Rightarrow> True | Failure error \<Rightarrow> False)"

text \<open>
  What one iteration of the loop leaves in the row of the job it handles: \<open>call\<close> is the
  row as the query read it, \<open>row\<close> the row in the store.
\<close>

definition dispatchedRow ::
  "time \<Rightarrow> vapi_env \<Rightarrow> (proactive_call \<Rightarrow> string + string) \<Rightarrow> proactive_call
     \<Rightarrow> proactive_call \<Rightarrow> proactive_call" where
  "dispatchedRow now env post call row =
     (case makeOutboundCall env (post call) of
        Success callId \<Rightarrow>
          row\<lparr>pc_status := IN_PROGRESS, pc_attempts := pc_attempts row + 1,
              pc_actualTime := Some now, pc_vapiCallId := Some callId\<rparr>
      | Failure error \<Rightarrow>
          row\<lparr>pc_status := (if pc_attempts call + 1 \<ge> pc_maxAttempts call then FAILED else SCHEDULED),
              pc_attempts := pc_attempts row + 1,
              pc_actualTime := Some now,
              pc_notes := Some error,
              pc_scheduledTime := addHours now 1\<rparr>)"

text \<open>A dispatch pass with its inputs, and a sequence of passes run one after the other.\<close>

record dispatch_pass =
  p_callType :: "call_type option"
  p_now :: time
  p_env :: vapi_env
  p_post :: "proactive_call \<Rightarrow> string + string"

definition runPass :: "dispatch_pass \<Rightarrow> store \<Rightarrow> store" where
  "runPass p s = fst (processScheduledCalls (p_callType p) (p_now p) (p_env p) (p_post p) s)"

fun runPasses :: "dispatch_pass list \<Rightarrow> store \<Rightarrow> store" where
  "runPasses [] s = s"
| "runPasses (p # ps) s = runPasses ps (runPass p s)"

text \<open>The job with identifier \<open>i\<close> is in the batch of the pass.\<close>

definition selectedBy :: "dispatch_pass \<Rightarrow> store \<Rightarrow> ident \<Rightarrow> bool" where
  "selectedBy p s i = list_ex (\<lambda>c. pc_id c = i) (dueCalls (p_callType p) (p_now p) s)"

text \<open>The gateway fails in the pass for the job with identifier \<open>i\<close>.\<close>

definition gatewayFailsFor :: "dispatch_pass \<Rightarrow> store \<Rightarrow> ident \<Rightarrow> bool" where
  "gatewayFailsFor p s i =
     list_all (\<lambda>c. \<not> accepted (p_env p) (p_post p) c)
       (filter (\<lambda>c. pc_id c = i) (dueCalls (p_callType p) (p_now p) s))"

section \<open>Wake-up dispatch\<close>

definition wakeUpRequest_update ::
  "ident \<Rightarrow> (wake_up_request \<Rightarrow> wake_up_request) \<Rightarrow> store \<Rightarrow> store" where
  "wakeUpRequest_update i f s =
     s\<lparr>wakeUpRequests := map (\<lambda>w. if w_id w = i then f w else w) (wakeUpRequests s)\<rparr>"

definition findWakeUp :: "ident \<Rightarrow> store \<Rightarrow> wake_up_request option" where
  "findWakeUp i s = find (\<lambda>w. w_id w = i) (wakeUpRequests s)"

text \<open>
  The sources do not pin the release of date-fns. For a whole number of days all
  releases agree (\<open>subDays\<close> above). For a fractional amount \<open>n / d\<close> of at most one
  day they differ: 2.x converts the amount to an integer first, rounding towards zero;
  3.x and 4.x pass the day of the month minus the amount to \<open>Date.setDate\<close>, which
  drops the fraction of its argument, so that any positive fraction takes a whole day
  off.
\<close>

datatype date_fns = DateFns2 | DateFns3

definition subDaysFraction :: "date_fns \<Rightarrow> time \<Rightarrow> int \<Rightarrow> int \<Rightarrow> time" where
  "subDaysFraction lib t n d =
     (case lib of
        DateFns2 \<Rightarrow> subDays t (n div d)
      | DateFns3 \<Rightarrow> subDays t (- ((- n) div d)))"

text \<open>\<open>const fiveMinutesAgo = subDays(now, 5 / (24 * 60))\<close>.\<close>

definition fiveMinutesAgo :: "date_fns \<Rightarrow> time \<Rightarrow> time" where
  "fiveMinutesAgo lib now = subDaysFraction lib now 5 (24 * 60)"

text \<open>
  The query of \<open>processWakeUpCalls\<close>: pending requests whose requested time lies between
  the lower bound and \<open>now\<close>, at most 10.
\<close>

definition wakeUpDue :: "time \<Rightarrow> time \<Rightarrow> store \<Rightarrow> wake_up_request list" where
  "wakeUpDue lowerBound now s =
     take 10 (filter (\<lambda>w. w_status w = PENDING
                         \<and> lowerBound \<le> w_requestedTime w \<and> w_requestedTime w \<le> now)
                (wakeUpRequests s))"

text \<open>\<open>prisma.reservation.findFirst\<close> for the room of a request.\<close>

definition checkedInReservation :: "string \<Rightarrow> store \<Rightarrow> reservation option" where
  "checkedInReservation roomNumber s =
     find (\<lambda>r. r_roomNumber r = Some roomNumber \<and> r_status r = CHECKED_IN) (reservations s)"

text \<open>
  The loop over the requests. \<open>post request\<close> is the outcome of the HTTP request of the
  call placed for \<open>request\<close>. The failure branch tests \<open>request.attempts\<close>, the count as
  the query read it.
\<close>

fun wakeUpLoop ::
  "time \<Rightarrow> vapi_env \<Rightarrow> (wake_up_request \<Rightarrow> string + string) \<Rightarrow> wake_up_request list
     \<Rightarrow> store \<Rightarrow> nat \<Rightarrow> store \<times> nat" where
  "wakeUpLoop now env post [] s processedCount = (s, processedCount)"
| "wakeUpLoop now env post (request # rest) s processedCount =
     (case checkedInReservation (w_roomNumber request) s of
        None \<Rightarrow>
          wakeUpLoop now env post rest
            (wakeUpRequest_update (w_id request) (\<lambda>w. w\<lparr>w_status := WU_FAILED\<rparr>) s)
            processedCount
      | Some reservation \<Rightarrow>
          (let s1 = wakeUpRequest_update (w_id request)
                      (\<lambda>w. w\<lparr>w_attempts := w_attempts w + 1\<rparr>) s
           in case makeOutboundCall env (post request) of
                Success callId \<Rightarrow>
                  wakeUpLoop now env post rest
                    (wakeUpRequest_update (w_id request)
                       (\<lambda>w. w\<lparr>w_status := WU_COMPLETED, w_completedAt := Some now\<rparr>) s1)
                    (processedCount + 1)
              | Failure error \<Rightarrow>
                  if w_attempts request \<ge> 2
                  then wakeUpLoop now env post rest
                         (wakeUpRequest_update (w_id request) (\<lambda>w. w\<lparr>w_status := WU_FAILED\<rparr>) s1)
                         processedCount
                  else wakeUpLoop now env post rest s1 processedCount))"

definition processWakeUpCalls ::
  "date_fns \<Rightarrow> time \<Rightarrow> vapi_env \<Rightarrow> (wake_up_request \<Rightarrow> string + string) \<Rightarrow> store
     \<Rightarrow> store \<times> nat" where
  "processWakeUpCalls lib now env post s =
     wakeUpLoop now env post (wakeUpDue (fiveMinutesAgo lib now) now s) s 0"




section \<open>PMS reconciliation\<close>

record pms_guest =
  pg_id :: string
  pg_firstName :: string
  pg_lastName :: string
  pg_email :: "string option"
  pg_phone :: string
  pg_preferredLanguage :: "string option"
  pg_vipStatus :: "bool option"

text \<open>The four status tokens of the \<open>PMSReservation\<close> type.\<close>

datatype pms_status = Pms_confirmed | Pms_checked_in | Pms_checked_out | Pms_cancelled

record pms_reservation =
  pr_id :: string
  pr_guestId :: string
  pr_roomNumber :: "string option"
  pr_roomType :: string
  pr_checkInDate :: string
  pr_checkOutDate :: string
  pr_status :: pms_status
  pr_numberOfGuests :: int
  pr_specialRequests :: "string option"

record pms_env =
  PMS_API_URL :: "string option"
  PMS_API_KEY :: "string option"

text \<open>
  The PMS as the sync sees it: the outcome of the reservation listing and of each guest
  fetch (\<open>Inl\<close> when the request, or reading its answer, throws), and \<open>parseISO\<close> of
  date-fns (\<open>None\<close> for a string that gives an invalid date, which the store rejects).
\<close>

record pms_api =
  listReservations :: "string + pms_reservation list"
  getGuest :: "string \<Rightarrow> string + pms_guest"
  parseISO :: "string \<Rightarrow> time option"

text \<open>
  The Prisma schema is not among the sources. \<open>externalId\<close> is a unique column of Guest
  and of Reservation (they are the keys of \<open>findUnique\<close> and \<open>upsert\<close>); whether the phone
  and the email of a guest are unique as well is a parameter.
\<close>

record guest_constraints =
  uniquePhone :: bool
  uniqueEmail :: bool

text \<open>\<open>pmsRes.status.toUpperCase().replace('-', '_')\<close> on the four tokens.\<close>

fun normalizeStatus :: "pms_status \<Rightarrow> reservation_status" where
  "normalizeStatus Pms_confirmed = CONFIRMED"
| "normalizeStatus Pms_checked_in = CHECKED_IN"
| "normalizeStatus Pms_checked_out = CHECKED_OUT"
| "normalizeStatus Pms_cancelled = CANCELLED"

text \<open>\<open>prisma.guest.create\<close> from the upstream contact fields; it throws on a unique column.\<close>

definition uniqueViolation :: "guest_constraints \<Rightarrow> pms_guest \<Rightarrow> store \<Rightarrow> bool" where
  "uniqueViolation k pmsGuest s =
     (list_ex (\<lambda>g. g_externalId g = Some (pg_id pmsGuest)) (guests s)
      \<or> (uniquePhone k \<and> list_ex (\<lambda>g. g_phone g = pg_phone pmsGuest) (guests s))
      \<or> (uniqueEmail k \<and> pg_email pmsGuest \<noteq> None
           \<and> list_ex (\<lambda>g. g_email g = pg_email pmsGuest) (guests s)))"

definition guest_create ::
  "guest_constraints \<Rightarrow> pms_guest \<Rightarrow> store \<Rightarrow> (string + guest) \<times> store" where
  "guest_create k pmsGuest s =
     (if uniqueViolation k pmsGuest s
      then (Inl ''Unique constraint failed'', s)
      else
        let guest = \<lparr>g_id = fresh_id (map g_id (guests s)),
                     g_externalId = Some (pg_id pmsGuest),
                     g_firstName = pg_firstName pmsGuest,
                     g_lastName = pg_lastName pmsGuest,
                     g_email = pg_email pmsGuest,
                     g_phone = pg_phone pmsGuest,
                     g_preferredLanguage =
                       (case pg_preferredLanguage pmsGuest of
                          None \<Rightarrow> ''en''
                        | Some l \<Rightarrow> if l = [] then ''en'' else l),
                     g_vipStatus = (case pg_vipStatus pmsGuest of Some v \<Rightarrow> v | None \<Rightarrow> False)\<rparr>
        in (Inr guest, s\<lparr>guests := guests s @ [guest]\<rparr>))"

text \<open>
  Guest resolution: fetch the upstream guest, \<open>findUnique\<close> by \<open>externalId\<close>, create the
  guest when there is none.
\<close>

definition resolveGuest ::
  "guest_constraints \<Rightarrow> pms_api \<Rightarrow> pms_reservation \<Rightarrow> store \<Rightarrow> (string + guest) \<times> store" where
  "resolveGuest k api pmsRes s =
     (case getGuest api (pr_guestId pmsRes) of
        Inl error \<Rightarrow> (Inl error, s)
      | Inr pmsGuest \<Rightarrow>
          (case find (\<lambda>g. g_externalId g = Some (pg_id pmsGuest)) (guests s) of
             Some guest \<Rightarrow> (Inr guest, s)
           | None \<Rightarrow> guest_create k pmsGuest s))"

text \<open>
  \<open>prisma.reservation.upsert\<close> by \<open>externalId\<close>. A field that is \<open>undefined\<close> in the
  \<open>update\<close> data is left as it is; the guest of an existing reservation is not changed.
\<close>

definition reservation_upsert ::
  "pms_api \<Rightarrow> pms_reservation \<Rightarrow> guest \<Rightarrow> store \<Rightarrow> (string + unit) \<times> store" where
  "reservation_upsert api pmsRes guest s =
     (case (parseISO api (pr_checkInDate pmsRes), parseISO api (pr_checkOutDate pmsRes)) of
        (Some checkIn, Some checkOut) \<Rightarrow>
          if list_ex (\<lambda>r. r_externalId r = Some (pr_id pmsRes)) (reservations s)
          then (Inr (),
                s\<lparr>reservations :=
                    map (\<lambda>r. if r_externalId r = Some (pr_id pmsRes)
                             then r\<lparr>r_roomNumber :=
                                      (case pr_roomNumber pmsRes of Some n \<Rightarrow> Some n
                                       | None \<Rightarrow> r_roomNumber r),
                                    r_roomType := pr_roomType pmsRes,
                                    r_checkInDate := checkIn,
                                    r_checkOutDate := checkOut,
                                    r_status := normalizeStatus (pr_status pmsRes),
                                    r_numberOfGuests := pr_numberOfGuests pmsRes,
                                    r_specialRequests :=
                                      (case pr_specialRequests pmsRes of Some t \<Rightarrow> Some t
                                       | None \<Rightarrow> r_specialRequests r)\<rparr>
                             else r) (reservations s)\<rparr>)
          else (Inr (),
                s\<lparr>reservations := reservations s @
                    [\<lparr>r_id = fresh_id (map r_id (reservations s)),
                      r_externalId = Some (pr_id pmsRes),
                      r_guestId = g_id guest,
                      r_roomNumber = pr_roomNumber pmsRes,
                      r_roomType = pr_roomType pmsRes,
                      r_checkInDate = checkIn,
                      r_checkOutDate = checkOut,
                      r_status = normalizeStatus (pr_status pmsRes),
                      r_numberOfGuests = pr_numberOfGuests pmsRes,
                      r_specialRequests = pr_specialRequests pmsRes\<rparr>]\<rparr>)
      | _ \<Rightarrow> (Inl ''Invalid value provided'', s))"

text \<open>The body of the inner \<open>try\<close>: what it throws is \<open>Inl\<close>, with the store as it left it.\<close>

definition syncReservation ::
  "guest_constraints \<Rightarrow> pms_api \<Rightarrow> pms_reservation \<Rightarrow> store \<Rightarrow> (string + unit) \<times> store" where
  "syncReservation k api pmsRes s =
     (case resolveGuest k api pmsRes s of
        (Inl error, s') \<Rightarrow> (Inl error, s')
      | (Inr guest, s') \<Rightarrow> reservation_upsert api pmsRes guest s')"

text \<open>The loop with its inner \<open>try\<close>/\<open>catch\<close>: \<open>synced++\<close> after the body, \<open>errors++\<close> in the handler.\<close>

fun syncLoop ::
  "guest_constraints \<Rightarrow> pms_api \<Rightarrow> pms_reservation list \<Rightarrow> store \<Rightarrow> nat \<Rightarrow> nat
     \<Rightarrow> store \<times> nat \<times> nat" where
  "syncLoop k api [] s synced errors = (s, synced, errors)"
| "syncLoop k api (pmsRes # rest) s synced errors =
     (case syncReservation k api pmsRes s of
        (Inr u, s') \<Rightarrow> syncLoop k api rest s' (synced + 1) errors
      | (Inl error, s') \<Rightarrow> syncLoop k api rest s' synced (errors + 1))"

record sync_result =
  synced :: nat
  errors :: nat

text \<open>
  The body of the outer \<open>try\<close>: the listing of the reservations, which may throw, and
  the loop. \<open>Inl\<close> is what the body throws, with the store as it left it.
\<close>

definition syncAll ::
  "guest_constraints \<Rightarrow> pms_api \<Rightarrow> store \<Rightarrow> (string + sync_result) \<times> store" where
  "syncAll k api s =
     (case listReservations api of
        Inl error \<Rightarrow> (Inl error, s)
      | Inr pmsReservations \<Rightarrow>
          (case syncLoop k api pmsReservations s 0 0 of
             (s', n, m) \<Rightarrow> (Inr \<lparr>synced = n, errors = m\<rparr>, s')))"

text \<open>
  \<open>syncFromPMS\<close>. The result is \<open>Inl\<close> for an exception that reaches the caller and
  \<open>Inr\<close> for a returned value; the outer \<open>catch\<close> turns what the body throws into
  the result \<open>{ synced: 0, errors: 1 }\<close>.
\<close>

definition syncFromPMS ::
  "pms_env \<Rightarrow> guest_constraints \<Rightarrow> pms_api \<Rightarrow> store \<Rightarrow> (string + sync_result) \<times> store" where
  "syncFromPMS env k api s =
     (if falsy (PMS_API_URL env) \<or> falsy (PMS_API_KEY env)
      then (Inr \<lparr>synced = 0, errors = 0\<rparr>, s)
      else
        (case syncAll k api s of
           (Inr result, s') \<Rightarrow> (Inr result, s')
         | (Inl error, s') \<Rightarrow> (Inr \<lparr>synced = 0, errors = 1\<rparr>, s')))"

text \<open>A reservation with the upstream identifier is in the store.\<close>

definition hasReservation :: "store \<Rightarrow> string \<Rightarrow> bool" where
  "hasReservation s externalId = list_ex (\<lambda>r. r_externalId r = Some externalId) (reservations s)"

section \<open>Proof vocabulary and sample data\<close>

text \<open>The (reservation, call-type) pairs of the ProactiveCall rows, in table order.\<close>

definition callKeys :: "store \<Rightarrow> (ident \<times> call_type) list" where
  "callKeys s = map (\<lambda>c. (pc_reservationId c, pc_callType c)) (proactiveCalls s)"

text \<open>The upstream identifiers of the Reservation rows, in table order.\<close>

definition externalIds :: "store \<Rightarrow> string option list" where
  "externalIds s = map r_externalId (reservations s)"

text \<open>
  A guest with a reservation for room 101, checking in on day 11 at 15:00 and leaving
  three days later (instants in ms; day 10 starts at 864000000).
\<close>

definition sampleGuest :: guest where
  "sampleGuest =
     \<lparr>g_id = 1, g_externalId = None, g_firstName = ''John'', g_lastName = ''Doe'',
      g_email = Some ''john.doe@example.com'', g_phone = ''+15551234567'',
      g_preferredLanguage = ''en'', g_vipStatus = False\<rparr>"

definition sampleReservation :: reservation where
  "sampleReservation =
     \<lparr>r_id = 1, r_externalId = Some ''sample-reservation-001'', r_guestId = 1,
      r_roomNumber = Some ''101'', r_roomType = ''DELUXE'',
      r_checkInDate = 1004400000, r_checkOutDate = 1263600000,
      r_status = CONFIRMED, r_numberOfGuests = 2, r_specialRequests = None\<rparr>"

definition sampleStore :: store where
  "sampleStore =
     \<lparr>guests = [sampleGuest], reservations = [sampleReservation],
      proactiveCalls = [], wakeUpRequests = []\<rparr>"

text \<open>The store after pre-arrival scheduling at 10:00 on day 10: one job, due at 16:00.\<close>

definition scheduledStore :: store where
  "scheduledStore = fst (schedulePreArrivalCalls 900000000 sampleStore)"

definition sampleVapiEnv :: vapi_env where
  "sampleVapiEnv = \<lparr>VAPI_API_KEY = Some ''key'', VAPI_PHONE_NUMBER_ID = Some ''phone-number-id''\<rparr>"

text \<open>A dispatch pass over all call types whose gateway answers every call with a failure.\<close>

definition failingPass :: "time \<Rightarrow> dispatch_pass" where
  "failingPass now =
     \<lparr>p_callType = None, p_now = now, p_env = sampleVapiEnv,
      p_post = (\<lambda>call. Inl ''line busy'')\<rparr>"

text \<open>
  The guest has checked in to room 101 and asked for a wake-up call at 10:00 on day 20
  (instant 1764000000).
\<close>

definition wakeUpStore :: store where
  "wakeUpStore =
     \<lparr>guests = [sampleGuest],
      reservations = [sampleReservation\<lparr>r_status := CHECKED_IN\<rparr>],
      proactiveCalls = [],
      wakeUpRequests =
        [\<lparr>w_id = 1, w_roomNumber = ''101'', w_requestedTime = 1764000000,
          w_status = PENDING, w_attempts = 0, w_completedAt = None\<rparr>]\<rparr>"


text \<open>A wake-up sweep at \<open>now\<close> with a gateway that fails.\<close>

definition failingSweep :: "date_fns \<Rightarrow> time \<Rightarrow> store \<Rightarrow> store" where
  "failingSweep lib now s =
     fst (processWakeUpCalls lib now sampleVapiEnv (\<lambda>request. Inl ''line busy'') s)"


text \<open>
  An upstream PMS with five reservations of five guests; fetching the guest of the
  third one fails.
\<close>

definition samplePmsGuest :: "string \<Rightarrow> pms_guest" where
  "samplePmsGuest guestId =
     \<lparr>pg_id = guestId, pg_firstName = ''Guest'', pg_lastName = guestId, pg_email = None,
      pg_phone = ''+1555000'' @ guestId, pg_preferredLanguage = None, pg_vipStatus = None\<rparr>"

definition samplePmsReservation :: "string \<Rightarrow> string \<Rightarrow> pms_reservation" where
  "samplePmsReservation reservationId guestId =
     \<lparr>pr_id = reservationId, pr_guestId = guestId, pr_roomNumber = None,
      pr_roomType = ''DELUXE'', pr_checkInDate = ''2024-01-10'', pr_checkOutDate = ''2024-01-12'',
      pr_status = Pms_confirmed, pr_numberOfGuests = 2, pr_specialRequests = None\<rparr>"

definition sampleParseISO :: "string \<Rightarrow> time option" where
  "sampleParseISO text =
     (if text = ''2024-01-10'' then Some 1704844800000
      else if text = ''2024-01-12'' then Some 1705017600000
      else None)"

definition samplePms :: pms_api where
  "samplePms =
     \<lparr>listReservations =
        Inr [samplePmsReservation ''R1'' ''1'', samplePmsReservation ''R2'' ''2'',
             samplePmsReservation ''R3'' ''3'', samplePmsReservation ''R4'' ''4'',
             samplePmsReservation ''R5'' ''5''],
      getGuest = (\<lambda>guestId. if guestId = ''3'' then Inl ''Request failed with status code 500''
                            else Inr (samplePmsGuest guestId)),
      parseISO = sampleParseISO\<rparr>"

definition unreachablePms :: pms_api where
  "unreachablePms = samplePms\<lparr>listReservations := Inl ''Network Error''\<rparr>"

text \<open>
  An upstream PMS with three reservations; the check-in date of the first one is not
  a date.
\<close>

definition invalidDatePms :: pms_api where
  "invalidDatePms =
     samplePms\<lparr>listReservations :=
        Inr [(samplePmsReservation ''R0'' ''9'')\<lparr>pr_checkInDate := ''tomorrow''\<rparr>,
             samplePmsReservation ''R1'' ''1'', samplePmsReservation ''R2'' ''2'']\<rparr>"

definition samplePmsEnv :: pms_env where
  "samplePmsEnv = \<lparr>PMS_API_URL = Some ''https://pms.example.com'', PMS_API_KEY = Some ''key''\<rparr>"

definition emptyStore :: store where
  "emptyStore = \<lparr>guests = [], reservations = [], proactiveCalls = [], wakeUpRequests = []\<rparr>"


text \<open>The two extreme settings of the unknown uniqueness constraints.\<close>

definition strictSchema :: guest_constraints where
  "strictSchema = \<lparr>uniquePhone = True, uniqueEmail = True\<rparr>"


section \<open>Properties\<close>

subsection \<open>Cron secret\<close>

text \<open>
  C10. For every non-empty secret presented to \<open>verifyCronSecret\<close> without an expected
  secret of the caller (the cron route passes none): when \<open>CRON_SECRET\<close> is not
  configured (unset or empty), the function returns true exactly when \<open>NODE_ENV\<close> is
  \<open>development\<close>. So in development every non-empty token is authorized, and outside
  development every token is rejected.
\<close>

theorem verifyCronSecret_unconfigured:
  assumes "s \<noteq> []" and "falsy expectedSecret" and "falsy (CRON_SECRET env)"
  shows "verifyCronSecret env (Some s) expectedSecret = (NODE_ENV env = Some ''development'')"
  using assms by (auto simp: verifyCronSecret_def or_else_def falsy_def split: option.splits)

theorem verifyCronSecret_unconfigured_witness:
  "''any-token'' \<noteq> [] \<and> falsy (CRON_SECRET \<lparr>CRON_SECRET = None, NODE_ENV = Some ''development''\<rparr>)
   \<and> verifyCronSecret \<lparr>CRON_SECRET = None, NODE_ENV = Some ''development''\<rparr> (Some ''any-token'') None
   \<and> \<not> verifyCronSecret \<lparr>CRON_SECRET = None, NODE_ENV = Some ''production''\<rparr> (Some ''any-token'') None"
  using verifyCronSecret_unconfigured [of "''any-token''" None "\<lparr>CRON_SECRET = None, NODE_ENV = Some ''development''\<rparr>"]
    verifyCronSecret_unconfigured [of "''any-token''" None "\<lparr>CRON_SECRET = None, NODE_ENV = Some ''production''\<rparr>"]
  by (simp add: falsy_def)

subsection \<open>Scheduling\<close>

lemma createCalls_result:
  "createCalls ct t rs s n = (s', n') \<Longrightarrow>
     callKeys s' = callKeys s @ map (\<lambda>r. (r_id r, ct)) rs
     \<and> n' = n + length rs
     \<and> reservations s' = reservations s
     \<and> guests s' = guests s
     \<and> wakeUpRequests s' = wakeUpRequests s
     \<and> length (proactiveCalls s') = length (proactiveCalls s) + length rs"
proof (induction rs arbitrary: s n)
  case Nil
  then show ?case by simp
next
  case (Cons r rs)
  from Cons.prems
  have "createCalls ct t rs (proactiveCall_create (r_id r) ct t SCHEDULED s) (n + 1) = (s', n')"
    by simp
  from Cons.IH [OF this] show ?case
    by (simp add: callKeys_def proactiveCall_create_def)
qed

lemma length_filter_le_1_distinct:
  "(\<forall>k. length (filter (\<lambda>x. f x = k) xs) \<le> 1) = distinct (map f xs)"
proof (induction xs)
  case Nil
  then show ?case by simp
next
  case (Cons x xs)
  show ?case
  proof (cases "f x \<in> f ` set xs")
    case True
    then obtain y where "y \<in> set xs" and "f y = f x" by auto
    then have "filter (\<lambda>y. f y = f x) xs \<noteq> []"
      by (auto simp: filter_empty_conv)
    then have "length (filter (\<lambda>y. f y = f x) xs) \<noteq> 0" by simp
    then have "\<not> length (filter (\<lambda>y. f y = f x) (x # xs)) \<le> 1" by simp
    then have "\<not> (\<forall>k. length (filter (\<lambda>y. f y = k) (x # xs)) \<le> 1)" by blast
    with True show ?thesis by simp
  next
    case False
    then have "\<forall>y \<in> set xs. f y \<noteq> f x" by (metis image_eqI)
    then have e: "filter (\<lambda>y. f y = f x) xs = []" by simp
    have "(\<forall>k. length (filter (\<lambda>y. f y = k) (x # xs)) \<le> 1)
        = (\<forall>k. length (filter (\<lambda>y. f y = k) xs) \<le> 1)"
    proof
      assume h: "\<forall>k. length (filter (\<lambda>y. f y = k) (x # xs)) \<le> 1"
      show "\<forall>k. length (filter (\<lambda>y. f y = k) xs) \<le> 1"
      proof
        fix k
        from h have "length (filter (\<lambda>y. f y = k) (x # xs)) \<le> 1" by blast
        then show "length (filter (\<lambda>y. f y = k) xs) \<le> 1"
          by (simp split: if_splits)
      qed
    next
      assume h: "\<forall>k. length (filter (\<lambda>y. f y = k) xs) \<le> 1"
      show "\<forall>k. length (filter (\<lambda>y. f y = k) (x # xs)) \<le> 1"
      proof
        fix k
        from h have "length (filter (\<lambda>y. f y = k) xs) \<le> 1" by blast
        with e show "length (filter (\<lambda>y. f y = k) (x # xs)) \<le> 1"
          by (cases "f x = k") auto
      qed
    qed
    with Cons False show ?thesis by simp
  qed
qed

lemma rowsFor_distinct:
  "(\<forall>rid ct. rowsFor s rid ct \<le> 1) = distinct (callKeys s)"
proof -
  have "rowsFor s rid ct = length (filter (\<lambda>c. (pc_reservationId c, pc_callType c) = (rid, ct)) (proactiveCalls s))" for rid ct
    by (simp add: rowsFor_def)
  then have "(\<forall>rid ct. rowsFor s rid ct \<le> 1)
     = (\<forall>k. length (filter (\<lambda>c. (pc_reservationId c, pc_callType c) = k) (proactiveCalls s)) \<le> 1)"
    by simp
  also have "\<dots> = distinct (callKeys s)"
    unfolding callKeys_def by (rule length_filter_le_1_distinct)
  finally show ?thesis .
qed

lemma noneOfType_keys: "noneOfType s ct r = ((r_id r, ct) \<notin> set (callKeys s))"
  by (force simp: noneOfType_def callKeys_def list_ex_iff)

lemma createCalls_distinct:
  assumes "distinct (map r_id rs)" and "\<forall>r \<in> set rs. noneOfType s ct r"
    and "distinct (callKeys s)"
  shows "distinct (callKeys (fst (createCalls ct t rs s n)))"
proof -
  obtain s' n' where r: "createCalls ct t rs s n = (s', n')" by (cases "createCalls ct t rs s n")
  from createCalls_result [OF r]
  have k: "callKeys s' = callKeys s @ map (\<lambda>r. (r_id r, ct)) rs" by simp
  have d: "distinct (map (\<lambda>r. (r_id r, ct)) rs)"
    using assms(1) by (simp add: distinct_map inj_on_def)
  have "set (callKeys s) \<inter> set (map (\<lambda>r. (r_id r, ct)) rs) = {}"
    using assms(2) by (auto simp: noneOfType_keys)
  with k d assms(3) show ?thesis by (simp add: r)
qed

lemma runSchedulingOp_inv:
  assumes "distinct (map r_id (reservations s))" and "distinct (callKeys s)"
  shows "distinct (callKeys (runSchedulingOp op now s)) \<and> reservations (runSchedulingOp op now s) = reservations s"
proof -
  have res: "reservations (fst (createCalls ct t rs s n)) = reservations s" for ct t rs n
    using createCalls_result [of ct t rs s n] by (cases "createCalls ct t rs s n") simp
  have sub: "distinct (map r_id (filter P (reservations s)))" for P
    using assms(1) by (simp add: distinct_map_filter)
  show ?thesis
  proof (cases op)
    case SchedulePreArrival
    then show ?thesis
      by (simp add: schedulePreArrivalCalls_def preArrivalDue_def Let_def res
            createCalls_distinct [OF sub _ assms(2)])
  next
    case ScheduleMidStay
    then show ?thesis
      by (simp add: scheduleMidStayCalls_def midStayDue_def Let_def res
            createCalls_distinct [OF sub _ assms(2)])
  next
    case SchedulePreCheckout
    then show ?thesis
      by (simp add: schedulePreCheckoutCalls_def preCheckoutDue_def Let_def res
            createCalls_distinct [OF sub _ assms(2)])
  next
    case SchedulePostStay
    then show ?thesis
      by (simp add: schedulePostStayCalls_def postStayDue_def Let_def res
            createCalls_distinct [OF sub _ assms(2)])
  qed
qed

lemma runScheduling_inv:
  "distinct (map r_id (reservations s)) \<Longrightarrow> distinct (callKeys s)
     \<Longrightarrow> distinct (callKeys (runScheduling ops s))"
proof (induction ops arbitrary: s)
  case Nil
  then show ?case by simp
next
  case (Cons a ops)
  obtain op now where a: "a = (op, now)" by (cases a)
  from runSchedulingOp_inv [OF Cons.prems, of op now]
  have "distinct (map r_id (reservations (runSchedulingOp op now s)))"
    and "distinct (callKeys (runSchedulingOp op now s))"
    using Cons.prems(1) by simp_all
  from Cons.IH [OF this] show ?case by (simp add: a)
qed

text \<open>
  C1. At most one ProactiveCall row per (reservation, call-type): the four scheduling
  operations, run one after the other in any order, any number of times and at any
  instants, keep the number of rows of every pair at most one. The store has no
  uniqueness constraint on the pair (\<open>proactiveCall_create\<close> always inserts); what
  keeps the invariant is the filter \<open>noneOfType\<close> of each query. Reservation
  identifiers are the primary key of their table, and the invariant is taken to hold
  at the start (as it does for an empty table).
\<close>

theorem at_most_one_call_per_reservation_and_type:
  assumes "distinct (map r_id (reservations s))"
    and "\<forall>reservationId callType. rowsFor s reservationId callType \<le> 1"
  shows "rowsFor (runScheduling ops s) reservationId callType \<le> 1"
proof -
  from assms(2) have "distinct (callKeys s)" using rowsFor_distinct [of s] by blast
  from runScheduling_inv [OF assms(1) this, of ops]
  have "\<forall>rid ct. rowsFor (runScheduling ops s) rid ct \<le> 1"
    using rowsFor_distinct [of "runScheduling ops s"] by blast
  then show ?thesis by blast
qed


theorem at_most_one_call_per_reservation_and_type_witness:
  "length (proactiveCalls
     (runScheduling [(SchedulePreArrival, 900000000), (SchedulePreArrival, 900060000),
                     (ScheduleMidStay, 900120000), (SchedulePreArrival, 986400000)]
        sampleStore)) = 1
   \<and> rowsFor (runScheduling [(SchedulePreArrival, 900000000), (SchedulePreArrival, 900060000),
                              (ScheduleMidStay, 900120000), (SchedulePreArrival, 986400000)]
                 sampleStore) 1 PRE_ARRIVAL \<le> 1"
proof -
  have d: "distinct (map r_id (reservations sampleStore))" by code_simp
  have e: "\<forall>reservationId callType. rowsFor sampleStore reservationId callType \<le> 1"
    by (simp add: rowsFor_def sampleStore_def)
  have n: "length (proactiveCalls
     (runScheduling [(SchedulePreArrival, 900000000), (SchedulePreArrival, 900060000),
                     (ScheduleMidStay, 900120000), (SchedulePreArrival, 986400000)]
        sampleStore)) = 1" by code_simp
  from at_most_one_call_per_reservation_and_type [OF d e] n show ?thesis by blast
qed

lemma preArrivalDue_after:
  assumes "startOfDay now' = startOfDay now"
    and "schedulePreArrivalCalls now s = (s1, n1)"
  shows "preArrivalDue now' s1 = []"
proof -
  from assms(2) obtain t where c: "createCalls PRE_ARRIVAL t (preArrivalDue now s) s 0 = (s1, n1)"
    by (auto simp: schedulePreArrivalCalls_def Let_def)
  from createCalls_result [OF c]
  have k: "callKeys s1 = callKeys s @ map (\<lambda>r. (r_id r, PRE_ARRIVAL)) (preArrivalDue now s)"
    and r: "reservations s1 = reservations s" by simp_all
  have "\<not> (r_status x = CONFIRMED
        \<and> addDays (startOfDay now) 1 \<le> r_checkInDate x
        \<and> r_checkInDate x < addDays (addDays (startOfDay now) 1) 1
        \<and> noneOfType s1 PRE_ARRIVAL x)" if x: "x \<in> set (reservations s)" for x
  proof
    assume h: "r_status x = CONFIRMED
        \<and> addDays (startOfDay now) 1 \<le> r_checkInDate x
        \<and> r_checkInDate x < addDays (addDays (startOfDay now) 1) 1
        \<and> noneOfType s1 PRE_ARRIVAL x"
    then have n1: "(r_id x, PRE_ARRIVAL) \<notin> set (callKeys s1)" by (simp add: noneOfType_keys)
    with k have "(r_id x, PRE_ARRIVAL) \<notin> set (callKeys s)" by simp
    then have "noneOfType s PRE_ARRIVAL x" by (simp add: noneOfType_keys)
    with h x have "x \<in> set (preArrivalDue now s)" by (simp add: preArrivalDue_def Let_def)
    then have "(r_id x, PRE_ARRIVAL) \<in> set (callKeys s1)" using k by simp
    with n1 show False by simp
  qed
  then show ?thesis
    by (simp add: preArrivalDue_def Let_def assms(1) r filter_empty_conv)
qed

text \<open>
  C3. Idempotent pre-arrival scheduling: the first invocation creates one job for each
  eligible reservation and returns their number; a second invocation on the resulting
  store, on the same calendar day, creates no row and returns 0.
\<close>

theorem schedulePreArrivalCalls_idempotent:
  assumes "startOfDay now' = startOfDay now"
    and "schedulePreArrivalCalls now s = (s1, n1)"
  shows "n1 = length (preArrivalDue now s)
     \<and> length (proactiveCalls s1) = length (proactiveCalls s) + n1
     \<and> (\<forall>r \<in> set (preArrivalDue now s). rowsFor s1 (r_id r) PRE_ARRIVAL \<ge> 1)
     \<and> schedulePreArrivalCalls now' s1 = (s1, 0)"
proof -
  from assms(2) obtain t where c: "createCalls PRE_ARRIVAL t (preArrivalDue now s) s 0 = (s1, n1)"
    by (auto simp: schedulePreArrivalCalls_def Let_def)
  note res = createCalls_result [OF c]
  have a: "n1 = length (preArrivalDue now s)" using res by simp
  have b: "length (proactiveCalls s1) = length (proactiveCalls s) + n1" using res by simp
  have d: "rowsFor s1 (r_id r) PRE_ARRIVAL \<ge> 1" if "r \<in> set (preArrivalDue now s)" for r
  proof -
    from that res have "(r_id r, PRE_ARRIVAL) \<in> set (callKeys s1)" by simp
    then obtain c where "c \<in> set (proactiveCalls s1)"
      and "pc_reservationId c = r_id r" and "pc_callType c = PRE_ARRIVAL"
      by (auto simp: callKeys_def)
    then have "filter (\<lambda>c. pc_reservationId c = r_id r \<and> pc_callType c = PRE_ARRIVAL)
                 (proactiveCalls s1) \<noteq> []"
      by (auto simp: filter_empty_conv)
    then show ?thesis
      by (simp add: rowsFor_def Suc_le_eq)
  qed
  have e: "schedulePreArrivalCalls now' s1 = (s1, 0)"
    by (simp add: schedulePreArrivalCalls_def Let_def preArrivalDue_after [OF assms])
  from a b d e show ?thesis by blast
qed

theorem schedulePreArrivalCalls_idempotent_witness:
  "startOfDay 900060000 = startOfDay 900000000
   \<and> schedulePreArrivalCalls 900000000 sampleStore = (scheduledStore, 1)
   \<and> length (proactiveCalls scheduledStore) = 1
   \<and> schedulePreArrivalCalls 900060000 scheduledStore = (scheduledStore, 0)"
proof -
  have a: "startOfDay 900060000 = startOfDay 900000000" by code_simp
  have b: "schedulePreArrivalCalls 900000000 sampleStore = (scheduledStore, 1)" by code_simp
  have c: "length (proactiveCalls sampleStore) = 0" by code_simp
  from schedulePreArrivalCalls_idempotent [OF a b] a b c show ?thesis by simp
qed

subsection \<open>Dispatch\<close>

lemma find_map_update:
  assumes "\<And>c. pc_id (f c) = pc_id c"
  shows "find (\<lambda>c. pc_id c = i) (map (\<lambda>c. if pc_id c = k then f c else c) xs)
       = (if i = k then map_option f (find (\<lambda>c. pc_id c = i) xs) else find (\<lambda>c. pc_id c = i) xs)"
  by (induction xs) (auto simp: assms)

lemma findCall_update:
  assumes "\<And>c. pc_id (f c) = pc_id c"
  shows "findCall i (proactiveCall_update k f s)
       = (if i = k then map_option f (findCall i s) else findCall i s)"
  unfolding findCall_def proactiveCall_update_def
  using find_map_update [of f i k "proactiveCalls s", OF assms] by simp

lemma ids_update:
  assumes "\<And>c. pc_id (f c) = pc_id c"
  shows "map pc_id (proactiveCalls (proactiveCall_update k f s)) = map pc_id (proactiveCalls s)"
  by (simp add: proactiveCall_update_def assms comp_def cong: map_cong)

lemma processLoop_ids:
  "map pc_id (proactiveCalls (fst (processLoop now env post cs s n))) = map pc_id (proactiveCalls s)"
proof (induction cs arbitrary: s n)
  case Nil
  then show ?case by simp
next
  case (Cons c cs)
  show ?case
    by (cases "makeOutboundCall env (post c)") (simp_all add: Let_def Cons.IH ids_update)
qed

lemma processLoop_other:
  "i \<notin> pc_id ` set cs \<Longrightarrow> findCall i (fst (processLoop now env post cs s n)) = findCall i s"
proof (induction cs arbitrary: s n)
  case Nil
  then show ?case by simp
next
  case (Cons c cs)
  then have ne: "i \<noteq> pc_id c" and rest: "i \<notin> pc_id ` set cs" by auto
  show ?case
    by (cases "makeOutboundCall env (post c)")
       (simp_all add: Let_def Cons.IH [OF rest] findCall_update ne)
qed

lemma processLoop_row:
  assumes "distinct (map pc_id cs)" and "j \<in> set cs" and "findCall (pc_id j) s = Some row"
  shows "findCall (pc_id j) (fst (processLoop now env post cs s n))
       = Some (dispatchedRow now env post j row)"
  using assms
proof (induction cs arbitrary: s n)
  case Nil
  then show ?case by simp
next
  case (Cons c cs)
  show ?case
  proof (cases "j = c")
    case True
    from Cons.prems(1) have notin: "pc_id c \<notin> pc_id ` set cs" by simp
    show ?thesis
      using Cons.prems(3)
      by (cases "makeOutboundCall env (post c)")
         (simp_all add: True Let_def processLoop_other [OF notin] findCall_update dispatchedRow_def)
  next
    case False
    with Cons.prems have in_rest: "j \<in> set cs" and d: "distinct (map pc_id cs)" by auto
    have "pc_id c \<notin> pc_id ` set cs" using Cons.prems(1) by simp
    moreover have "pc_id j \<in> pc_id ` set cs" using in_rest by (rule imageI)
    ultimately have ne: "pc_id j \<noteq> pc_id c" by metis
    show ?thesis
      using Cons.prems(3)
      by (cases "makeOutboundCall env (post c)")
         (simp_all add: Let_def findCall_update ne Cons.IH [OF d in_rest])
  qed
qed

lemma processLoop_count:
  "snd (processLoop now env post cs s n) = n + length (filter (accepted env post) cs)"
proof (induction cs arbitrary: s n)
  case Nil
  then show ?case by simp
next
  case (Cons c cs)
  show ?case
    by (cases "makeOutboundCall env (post c)") (simp_all add: Let_def Cons.IH accepted_def)
qed

lemma dueCalls_set:
  "set (dueCalls ct now s) \<subseteq> {c \<in> set (proactiveCalls s). duePredicate ct now c}"
proof -
  have "set (dueCalls ct now s) \<subseteq> set (sort_key pc_scheduledTime (filter (duePredicate ct now) (proactiveCalls s)))"
    unfolding dueCalls_def by (rule set_take_subset)
  then show ?thesis by auto
qed

lemma dueCalls_distinct:
  assumes "distinct (map pc_id (proactiveCalls s))"
  shows "distinct (map pc_id (dueCalls ct now s))"
proof -
  let ?f = "filter (duePredicate ct now) (proactiveCalls s)"
  from assms have "distinct (map pc_id ?f)" by (rule distinct_map_filter)
  then have "distinct ?f" and "inj_on pc_id (set ?f)" by (simp_all add: distinct_map)
  then have "distinct (sort_key pc_scheduledTime ?f)"
    and "inj_on pc_id (set (sort_key pc_scheduledTime ?f))" by simp_all
  then have "distinct (map pc_id (sort_key pc_scheduledTime ?f))" by (simp add: distinct_map)
  then show ?thesis unfolding dueCalls_def take_map [symmetric] by (rule distinct_take)
qed

lemma find_distinct:
  "distinct (map pc_id xs) \<Longrightarrow> c \<in> set xs \<Longrightarrow> find (\<lambda>x. pc_id x = pc_id c) xs = Some c"
proof (induction xs)
  case Nil
  then show ?case by simp
next
  case (Cons x xs)
  show ?case
  proof (cases "c = x")
    case True
    then show ?thesis by simp
  next
    case False
    with Cons.prems have m: "c \<in> set xs" by simp
    then have "pc_id c \<in> pc_id ` set xs" by (rule imageI)
    moreover have "pc_id x \<notin> pc_id ` set xs" using Cons.prems(1) by simp
    ultimately have "pc_id x \<noteq> pc_id c" by metis
    with Cons.IH m Cons.prems(1) show ?thesis by simp
  qed
qed

lemma findCall_distinct:
  assumes "distinct (map pc_id (proactiveCalls s))" and "c \<in> set (proactiveCalls s)"
  shows "findCall (pc_id c) s = Some c"
  unfolding findCall_def using assms by (rule find_distinct)

text \<open>
  C5. The number returned by \<open>processScheduledCalls\<close> is the number of jobs of the
  batch whose call the gateway accepted; a job whose call fails adds nothing to it.
\<close>

theorem processScheduledCalls_counts_accepted:
  "snd (processScheduledCalls callType now env post s)
     = length (filter (accepted env post) (dueCalls callType now s))"
  by (simp add: processScheduledCalls_def processLoop_count)

theorem processScheduledCalls_counts_accepted_witness:
  "length (dueCalls None 921900000 scheduledStore) = 1
   \<and> snd (processScheduledCalls None 921900000 sampleVapiEnv (\<lambda>call. Inl ''line busy'')
            scheduledStore) = 0
   \<and> snd (processScheduledCalls None 921900000 sampleVapiEnv (\<lambda>call. Inr ''call-handle'')
            scheduledStore) = 1"
proof -
  have n: "length (dueCalls None 921900000 scheduledStore) = 1" by code_simp
  have a: "length (filter (accepted sampleVapiEnv (\<lambda>call. Inl ''line busy''))
             (dueCalls None 921900000 scheduledStore)) = 0" by code_simp
  have b: "length (filter (accepted sampleVapiEnv (\<lambda>call. Inr ''call-handle''))
             (dueCalls None 921900000 scheduledStore)) = 1" by code_simp
  from processScheduledCalls_counts_accepted [of None 921900000 sampleVapiEnv
      "\<lambda>call. Inl ''line busy''" scheduledStore]
    processScheduledCalls_counts_accepted [of None 921900000 sampleVapiEnv
      "\<lambda>call. Inr ''call-handle''" scheduledStore]
    n a b
  show ?thesis by simp
qed

lemma processScheduledCalls_row:
  assumes "distinct (map pc_id (proactiveCalls s))" and "j \<in> set (dueCalls ct now s)"
  shows "findCall (pc_id j) (fst (processScheduledCalls ct now env post s))
       = Some (dispatchedRow now env post j j)"
proof -
  from assms(2) dueCalls_set have "j \<in> set (proactiveCalls s)" by blast
  from findCall_distinct [OF assms(1) this] have "findCall (pc_id j) s = Some j" .
  from processLoop_row [OF dueCalls_distinct [OF assms(1)] assms(2) this]
  show ?thesis by (simp add: processScheduledCalls_def)
qed

text \<open>
  C4. Backoff: a due job of the batch whose gateway call fails with \<open>message\<close>, and
  whose attempt count after this attempt is below its \<open>maxAttempts\<close>, is left with status
  SCHEDULED, scheduled time \<open>now\<close> + 1 hour (3600000 ms, whatever the number of earlier
  attempts) and the message as its notes.
\<close>

theorem failed_attempt_rescheduled_one_hour_later:
  assumes "distinct (map pc_id (proactiveCalls s))"
    and "j \<in> set (dueCalls callType now s)"
    and "makeOutboundCall env (post j) = Failure message"
    and "pc_attempts j + 1 < pc_maxAttempts j"
  shows "findCall (pc_id j) (fst (processScheduledCalls callType now env post s))
       = Some (j\<lparr>pc_status := SCHEDULED,
                 pc_attempts := pc_attempts j + 1,
                 pc_actualTime := Some now,
                 pc_notes := Some message,
                 pc_scheduledTime := now + 3600000\<rparr>)"
  using processScheduledCalls_row [OF assms(1,2), of env post] assms(3,4)
  by (simp add: dispatchedRow_def addHours_def msPerHour_def)

theorem failed_attempt_rescheduled_one_hour_later_witness:
  "distinct (map pc_id (proactiveCalls scheduledStore))
   \<and> dueCalls None 921900000 scheduledStore =
        [\<lparr>pc_id = 1, pc_reservationId = 1, pc_callType = PRE_ARRIVAL,
          pc_scheduledTime = 921600000, pc_actualTime = None,
          pc_status = SCHEDULED, pc_attempts = 0, pc_maxAttempts = 3,
          pc_vapiCallId = None, pc_notes = None\<rparr>]
   \<and> findCall 1 (fst (processScheduledCalls None 921900000 sampleVapiEnv (\<lambda>call. Inl ''line busy'')
                        scheduledStore))
       = Some \<lparr>pc_id = 1, pc_reservationId = 1, pc_callType = PRE_ARRIVAL,
          pc_scheduledTime = 925500000, pc_actualTime = Some 921900000,
          pc_status = SCHEDULED, pc_attempts = 1, pc_maxAttempts = 3,
          pc_vapiCallId = None, pc_notes = Some ''line busy''\<rparr>"
proof -
  let ?j = "\<lparr>pc_id = 1, pc_reservationId = 1, pc_callType = PRE_ARRIVAL,
          pc_scheduledTime = 921600000, pc_actualTime = None,
          pc_status = SCHEDULED, pc_attempts = 0, pc_maxAttempts = 3,
          pc_vapiCallId = None, pc_notes = None\<rparr>"
  have d: "distinct (map pc_id (proactiveCalls scheduledStore))" by code_simp
  have q: "dueCalls None 921900000 scheduledStore = [?j]" by code_simp
  then have m: "?j \<in> set (dueCalls None 921900000 scheduledStore)" by simp
  have g: "makeOutboundCall sampleVapiEnv ((\<lambda>call. Inl ''line busy'') ?j) = Failure ''line busy''"
    by code_simp
  have a: "pc_attempts ?j + 1 < pc_maxAttempts ?j" by simp
  from failed_attempt_rescheduled_one_hour_later [OF d m g a] d q show ?thesis by simp
qed

lemma runPass_ids:
  "map pc_id (proactiveCalls (runPass p s)) = map pc_id (proactiveCalls s)"
  by (simp add: runPass_def processScheduledCalls_def processLoop_ids)

lemma runPass_failing:
  assumes d: "distinct (map pc_id (proactiveCalls s))"
    and f: "findCall i s = Some row"
    and sel: "selectedBy p s i"
    and fail: "gatewayFailsFor p s i"
  shows "\<exists>row'. findCall i (runPass p s) = Some row'
           \<and> pc_status row' = (if pc_attempts row + 1 \<ge> pc_maxAttempts row then FAILED else SCHEDULED)
           \<and> pc_attempts row' = pc_attempts row + 1
           \<and> pc_maxAttempts row' = pc_maxAttempts row"
proof -
  from sel obtain j where j: "j \<in> set (dueCalls (p_callType p) (p_now p) s)" and ji: "pc_id j = i"
    by (auto simp: selectedBy_def list_ex_iff)
  from j dueCalls_set have "j \<in> set (proactiveCalls s)" by blast
  from findCall_distinct [OF d this] f ji have jr: "j = row" by simp
  from fail j ji have na: "\<not> accepted (p_env p) (p_post p) j"
    by (auto simp: gatewayFailsFor_def list_all_iff)
  then obtain e where e: "makeOutboundCall (p_env p) (p_post p j) = Failure e"
    by (cases "makeOutboundCall (p_env p) (p_post p j)") (simp_all add: accepted_def)
  from processScheduledCalls_row [OF d j, of "p_env p" "p_post p"] e ji jr
  show ?thesis
    by (simp add: runPass_def dispatchedRow_def)
qed

lemma runPass_not_selected:
  assumes "distinct (map pc_id (proactiveCalls s))"
    and "findCall i s = Some row" and "pc_status row \<noteq> SCHEDULED \<or> pc_attempts row \<ge> 3"
  shows "\<not> selectedBy p s i \<and> findCall i (runPass p s) = Some row"
proof -
  have ns: "\<not> selectedBy p s i"
  proof
    assume "selectedBy p s i"
    then obtain j where j: "j \<in> set (dueCalls (p_callType p) (p_now p) s)" and ji: "pc_id j = i"
      by (auto simp: selectedBy_def list_ex_iff)
    from j dueCalls_set have m: "j \<in> set (proactiveCalls s)"
      and du: "duePredicate (p_callType p) (p_now p) j" by blast+
    from findCall_distinct [OF assms(1) m] assms(2) ji have "j = row" by simp
    with du assms(3) show False by (auto simp: duePredicate_def)
  qed
  then have "i \<notin> pc_id ` set (dueCalls (p_callType p) (p_now p) s)"
    by (auto simp: selectedBy_def list_ex_iff)
  from processLoop_other [OF this] assms(2) ns show ?thesis
    by (simp add: runPass_def processScheduledCalls_def)
qed

lemma runPasses_not_selected:
  assumes "distinct (map pc_id (proactiveCalls s))"
    and "findCall i s = Some row" and "pc_status row \<noteq> SCHEDULED \<or> pc_attempts row \<ge> 3"
  shows "distinct (map pc_id (proactiveCalls (runPasses ps s)))
       \<and> findCall i (runPasses ps s) = Some row"
  using assms
proof (induction ps arbitrary: s)
  case Nil
  then show ?case by simp
next
  case (Cons p ps)
  from Cons.prems(1) have d: "distinct (map pc_id (proactiveCalls (runPass p s)))"
    by (simp add: runPass_ids)
  from runPass_not_selected [OF Cons.prems] have "findCall i (runPass p s) = Some row" by simp
  from Cons.IH [OF d this Cons.prems(3)] show ?case by simp
qed

text \<open>
  C2. Retry ceiling: a job with \<open>maxAttempts\<close> 3 and no attempt so far, selected by three
  dispatch passes in each of which the gateway fails for it, has status FAILED and an
  attempt count of 3 after the third; no later pass, whatever its instant, call-type
  filter and gateway, selects it.
\<close>

theorem retry_ceiling_respected:
  assumes "distinct (map pc_id (proactiveCalls s0))"
    and "findCall i s0 = Some job"
    and "pc_attempts job = 0" and "pc_maxAttempts job = 3"
    and "selectedBy p1 s0 i" and "gatewayFailsFor p1 s0 i"
    and "selectedBy p2 (runPass p1 s0) i" and "gatewayFailsFor p2 (runPass p1 s0) i"
    and "selectedBy p3 (runPass p2 (runPass p1 s0)) i"
    and "gatewayFailsFor p3 (runPass p2 (runPass p1 s0)) i"
  shows "(\<exists>job'. findCall i (runPasses [p1, p2, p3] s0) = Some job'
            \<and> pc_status job' = FAILED \<and> pc_attempts job' = 3)
       \<and> (\<forall>later p. \<not> selectedBy p (runPasses later (runPasses [p1, p2, p3] s0)) i)"
proof -
  let ?s1 = "runPass p1 s0"
  let ?s2 = "runPass p2 ?s1"
  let ?s3 = "runPass p3 ?s2"
  have d1: "distinct (map pc_id (proactiveCalls ?s1))" using assms(1) by (simp add: runPass_ids)
  have d2: "distinct (map pc_id (proactiveCalls ?s2))" using assms(1) by (simp add: runPass_ids)
  have d3: "distinct (map pc_id (proactiveCalls ?s3))" using assms(1) by (simp add: runPass_ids)
  from runPass_failing [OF assms(1,2,5,6)] assms(3,4)
  obtain r1 where r1: "findCall i ?s1 = Some r1" and a1: "pc_attempts r1 = 1" and m1: "pc_maxAttempts r1 = 3"
    by auto
  from runPass_failing [OF d1 r1 assms(7,8)] a1 m1
  obtain r2 where r2: "findCall i ?s2 = Some r2" and a2: "pc_attempts r2 = 2" and m2: "pc_maxAttempts r2 = 3"
    by auto
  from runPass_failing [OF d2 r2 assms(9,10)] a2 m2
  obtain r3 where r3: "findCall i ?s3 = Some r3" and a3: "pc_attempts r3 = 3" and st3: "pc_status r3 = FAILED"
    by auto
  have s3: "runPasses [p1, p2, p3] s0 = ?s3" by simp
  have later: "\<not> selectedBy p (runPasses later ?s3) i" for later p
  proof -
    from st3 have c: "pc_status r3 \<noteq> SCHEDULED \<or> pc_attempts r3 \<ge> 3" by simp
    from runPasses_not_selected [OF d3 r3 c, of later]
    have "distinct (map pc_id (proactiveCalls (runPasses later ?s3)))"
      and "findCall i (runPasses later ?s3) = Some r3" by simp_all
    from runPass_not_selected [OF this c] show ?thesis by simp
  qed
  from r3 a3 st3 later show ?thesis unfolding s3 by blast
qed

theorem retry_ceiling_respected_witness:
  "distinct (map pc_id (proactiveCalls scheduledStore))
   \<and> selectedBy (failingPass 921900000) scheduledStore 1
   \<and> selectedBy (failingPass 925500000) (runPass (failingPass 921900000) scheduledStore) 1
   \<and> selectedBy (failingPass 929100000)
        (runPass (failingPass 925500000) (runPass (failingPass 921900000) scheduledStore)) 1
   \<and> (\<exists>job'. findCall 1 (runPasses [failingPass 921900000, failingPass 925500000,
                                     failingPass 929100000] scheduledStore) = Some job'
          \<and> pc_status job' = FAILED \<and> pc_attempts job' = 3)
   \<and> \<not> selectedBy (failingPass 999999999)
          (runPasses [failingPass 932700000]
             (runPasses [failingPass 921900000, failingPass 925500000, failingPass 929100000]
                scheduledStore)) 1"
proof -
  let ?p1 = "failingPass 921900000" and ?p2 = "failingPass 925500000"
    and ?p3 = "failingPass 929100000"
  let ?job = "\<lparr>pc_id = 1, pc_reservationId = 1, pc_callType = PRE_ARRIVAL,
          pc_scheduledTime = 921600000, pc_actualTime = None,
          pc_status = SCHEDULED, pc_attempts = 0, pc_maxAttempts = 3,
          pc_vapiCallId = None, pc_notes = None\<rparr>"
  have d: "distinct (map pc_id (proactiveCalls scheduledStore))" by code_simp
  have f: "findCall 1 scheduledStore = Some ?job" by code_simp
  have a: "pc_attempts ?job = 0" and m: "pc_maxAttempts ?job = 3" by simp_all
  have s1: "selectedBy ?p1 scheduledStore 1" by code_simp
  have g1: "gatewayFailsFor ?p1 scheduledStore 1" by code_simp
  have s2: "selectedBy ?p2 (runPass ?p1 scheduledStore) 1" by code_simp
  have g2: "gatewayFailsFor ?p2 (runPass ?p1 scheduledStore) 1" by code_simp
  have s3: "selectedBy ?p3 (runPass ?p2 (runPass ?p1 scheduledStore)) 1" by code_simp
  have g3: "gatewayFailsFor ?p3 (runPass ?p2 (runPass ?p1 scheduledStore)) 1" by code_simp
  from retry_ceiling_respected [OF d f a m s1 g1 s2 g2 s3 g3] d s1 s2 s3
  show ?thesis by blast
qed

subsection \<open>PMS reconciliation\<close>

lemma guest_create_fail: "fst (guest_create k pg s) = Inl e \<Longrightarrow> snd (guest_create k pg s) = s"
  by (cases "uniqueViolation k pg s") (simp_all add: guest_create_def Let_def)

lemma resolveGuest_fail:
  assumes "fst (resolveGuest k api r s) = Inl e"
  shows "resolveGuest k api r s = (Inl e, s)"
proof (cases "getGuest api (pr_guestId r)")
  case (Inl a)
  with assms show ?thesis by (simp add: resolveGuest_def)
next
  case (Inr pg)
  show ?thesis
  proof (cases "find (\<lambda>g. g_externalId g = Some (pg_id pg)) (guests s)")
    case None
    with Inr assms have f: "fst (guest_create k pg s) = Inl e" by (simp add: resolveGuest_def)
    from guest_create_fail [OF f] f have "guest_create k pg s = (Inl e, s)"
      by (simp add: prod_eq_iff)
    with Inr None show ?thesis by (simp add: resolveGuest_def)
  next
    case (Some g)
    with Inr assms show ?thesis by (simp add: resolveGuest_def)
  qed
qed

lemma resolveGuest_reservations:
  "reservations (snd (resolveGuest k api r s)) = reservations s"
  by (simp add: resolveGuest_def guest_create_def Let_def split: sum.splits option.splits)

lemma syncReservation_guest_fail:
  "fst (resolveGuest k api r s) = Inl e \<Longrightarrow> syncReservation k api r s = (Inl e, s)"
  by (simp add: syncReservation_def resolveGuest_fail)

lemma hasReservation_ids:
  "hasReservation s x = (Some x \<in> set (externalIds s))"
  by (force simp: hasReservation_def list_ex_iff externalIds_def)

lemma reservation_upsert_ids:
  "(\<exists>e. fst (reservation_upsert api r g s) = Inl e) \<and> snd (reservation_upsert api r g s) = s
   \<or> fst (reservation_upsert api r g s) = Inr () \<and> hasReservation s (pr_id r)
       \<and> externalIds (snd (reservation_upsert api r g s)) = externalIds s
   \<or> fst (reservation_upsert api r g s) = Inr ()
       \<and> externalIds (snd (reservation_upsert api r g s)) = externalIds s @ [Some (pr_id r)]"
proof (cases "parseISO api (pr_checkInDate r)")
  case None
  then show ?thesis by (simp add: reservation_upsert_def)
next
  case ci: (Some checkIn)
  show ?thesis
  proof (cases "parseISO api (pr_checkOutDate r)")
    case None
    with ci show ?thesis by (simp add: reservation_upsert_def)
  next
    case co: (Some checkOut)
    show ?thesis
    proof (cases "list_ex (\<lambda>x. r_externalId x = Some (pr_id r)) (reservations s)")
      case True
      have "map r_externalId (map (\<lambda>x. if r_externalId x = Some (pr_id r) then f x else x) xs)
             = map r_externalId xs" if "\<And>x. r_externalId (f x) = r_externalId x" for f xs
        using that by (induction xs) simp_all
      with True ci co show ?thesis
        by (simp add: reservation_upsert_def hasReservation_def externalIds_def)
    next
      case False
      with ci co show ?thesis by (simp add: reservation_upsert_def externalIds_def)
    qed
  qed
qed

lemma reservation_upsert_keeps:
  assumes "hasReservation s x"
  shows "hasReservation (snd (reservation_upsert api r g s)) x"
proof -
  from assms have "Some x \<in> set (externalIds s)" by (simp add: hasReservation_ids)
  with reservation_upsert_ids [of api r g s]
  have "Some x \<in> set (externalIds (snd (reservation_upsert api r g s)))"
    by (elim disjE conjE) simp_all
  then show ?thesis by (simp add: hasReservation_ids)
qed

lemma reservation_upsert_has:
  assumes "fst (reservation_upsert api r g s) = Inr u"
  shows "hasReservation (snd (reservation_upsert api r g s)) (pr_id r)"
proof -
  from reservation_upsert_ids [of api r g s] assms
  have "Some (pr_id r) \<in> set (externalIds (snd (reservation_upsert api r g s)))"
    by (elim disjE conjE exE) (simp_all add: hasReservation_ids)
  then show ?thesis by (simp add: hasReservation_ids)
qed

lemma syncReservation_keeps:
  "hasReservation s x \<Longrightarrow> hasReservation (snd (syncReservation k api r s)) x"
proof -
  assume h: "hasReservation s x"
  obtain a s' where rg: "resolveGuest k api r s = (a, s')" by (cases "resolveGuest k api r s")
  with resolveGuest_reservations [of k api r s] have "reservations s' = reservations s" by simp
  with h have h': "hasReservation s' x" by (simp add: hasReservation_def)
  show ?thesis
    using rg h' reservation_upsert_keeps [of s' x api r]
    by (cases a) (simp_all add: syncReservation_def)
qed

lemma syncReservation_has:
  assumes "syncReservation k api r s = (Inr u, s')"
  shows "hasReservation s' (pr_id r)"
proof -
  obtain a s1 where rg: "resolveGuest k api r s = (a, s1)" by (cases "resolveGuest k api r s")
  show ?thesis
  proof (cases a)
    case (Inl e)
    with rg assms show ?thesis by (simp add: syncReservation_def)
  next
    case (Inr g)
    with rg assms have "reservation_upsert api r g s1 = (Inr u, s')" by (simp add: syncReservation_def)
    with reservation_upsert_has [of api r g s1 u] show ?thesis by simp
  qed
qed

lemma syncReservation_keeps':
  "syncReservation k api r s = (a, s') \<Longrightarrow> hasReservation s x \<Longrightarrow> hasReservation s' x"
  using syncReservation_keeps [of s x k api r] by simp

lemma syncLoop_append:
  "syncLoop k api (before @ after) s n m
     = (case syncLoop k api before s n m of (s', n', m') \<Rightarrow> syncLoop k api after s' n' m')"
proof (induction before arbitrary: s n m)
  case Nil
  then show ?case by simp
next
  case (Cons x before)
  obtain a s1 where e: "syncReservation k api x s = (a, s1)" by (cases "syncReservation k api x s")
  show ?case by (cases a) (simp_all add: e Cons.IH)
qed

lemma syncLoop_count:
  "syncLoop k api batch s n m = (s', n', m') \<Longrightarrow> n' + m' = n + m + length batch"
proof (induction batch arbitrary: s n m)
  case Nil
  then show ?case by simp
next
  case (Cons x batch)
  obtain a s1 where e: "syncReservation k api x s = (a, s1)" by (cases "syncReservation k api x s")
  show ?case
  proof (cases a)
    case (Inl err)
    with Cons.prems e have "syncLoop k api batch s1 n (m + 1) = (s', n', m')" by simp
    from Cons.IH [OF this] show ?thesis by simp
  next
    case (Inr u)
    with Cons.prems e have "syncLoop k api batch s1 (n + 1) m = (s', n', m')" by simp
    from Cons.IH [OF this] show ?thesis by simp
  qed
qed

text \<open>
  C6. \<open>syncFromPMS\<close> always returns a result, it never passes an exception to its
  caller. When the PMS is configured and the listing of reservations fails, the result
  is 0 synced and 1 error and the store is untouched. When the listing succeeds, every
  upstream reservation is counted once, as synced or as an error. A reservation whose
  sync throws, at whatever place of the batch and for whatever reason (the guest fetch,
  the guest creation or the reservation upsert), adds one to the error counter, and the
  loop goes on with the reservations after it. A failure during guest resolution
  leaves the store as it is. For five upstream reservations of which the third throws
  during guest resolution while the others sync, the result is 4 synced and 1 error,
  and the four others are in the store.
\<close>

theorem syncFromPMS_isolates_failures:
  "(\<exists>result. fst (syncFromPMS env k api s) = Inr result)
   \<and> (\<not> falsy (PMS_API_URL env) \<and> \<not> falsy (PMS_API_KEY env) \<and> listReservations api = Inl message
        \<longrightarrow> syncFromPMS env k api s = (Inr \<lparr>synced = 0, errors = 1\<rparr>, s))
   \<and> (\<not> falsy (PMS_API_URL env) \<and> \<not> falsy (PMS_API_KEY env) \<and> listReservations api = Inr batch
        \<longrightarrow> (\<exists>result s'. syncFromPMS env k api s = (Inr result, s')
               \<and> synced result + errors result = length batch))
   \<and> (\<not> falsy (PMS_API_URL env) \<and> \<not> falsy (PMS_API_KEY env)
        \<and> listReservations api = Inr (before @ x # after)
        \<and> syncLoop k api before s 0 0 = (sb, nb, mb)
        \<and> syncReservation k api x sb = (Inl message, sx)
        \<longrightarrow> (\<exists>s' n m. syncLoop k api after sx nb (mb + 1) = (s', n, m)
               \<and> syncFromPMS env k api s = (Inr \<lparr>synced = n, errors = m\<rparr>, s')))
   \<and> (fst (resolveGuest k api x s) = Inl message
        \<longrightarrow> syncReservation k api x s = (Inl message, s)
            \<and> syncLoop k api (x # rest) s n0 m0 = syncLoop k api rest s n0 (m0 + 1))
   \<and> (\<not> falsy (PMS_API_URL env) \<and> \<not> falsy (PMS_API_KEY env)
        \<and> listReservations api = Inr [r1, r2, r3, r4, r5]
        \<and> syncReservation k api r1 s = (Inr (), s1)
        \<and> syncReservation k api r2 s1 = (Inr (), s2)
        \<and> fst (resolveGuest k api r3 s2) = Inl message
        \<and> syncReservation k api r4 s2 = (Inr (), s4)
        \<and> syncReservation k api r5 s4 = (Inr (), s5)
        \<longrightarrow> syncFromPMS env k api s = (Inr \<lparr>synced = 4, errors = 1\<rparr>, s5)
            \<and> hasReservation s5 (pr_id r1) \<and> hasReservation s5 (pr_id r2)
            \<and> hasReservation s5 (pr_id r4) \<and> hasReservation s5 (pr_id r5))"
proof (intro conjI impI)
  show "\<exists>result. fst (syncFromPMS env k api s) = Inr result"
    by (simp add: syncFromPMS_def split: sum.splits prod.splits)
next
  assume "\<not> falsy (PMS_API_URL env) \<and> \<not> falsy (PMS_API_KEY env) \<and> listReservations api = Inl message"
  then show "syncFromPMS env k api s = (Inr \<lparr>synced = 0, errors = 1\<rparr>, s)"
    by (simp add: syncFromPMS_def syncAll_def)
next
  assume h: "\<not> falsy (PMS_API_URL env) \<and> \<not> falsy (PMS_API_KEY env) \<and> listReservations api = Inr batch"
  obtain s' n m where l: "syncLoop k api batch s 0 0 = (s', n, m)"
    by (cases "syncLoop k api batch s 0 0") auto
  from syncLoop_count [OF l] have "n + m = length batch" by simp
  with h l show "\<exists>result s'. syncFromPMS env k api s = (Inr result, s')
               \<and> synced result + errors result = length batch"
    by (simp add: syncFromPMS_def syncAll_def)
next
  assume h: "\<not> falsy (PMS_API_URL env) \<and> \<not> falsy (PMS_API_KEY env)
        \<and> listReservations api = Inr (before @ x # after)
        \<and> syncLoop k api before s 0 0 = (sb, nb, mb)
        \<and> syncReservation k api x sb = (Inl message, sx)"
  obtain s' n m where l: "syncLoop k api after sx nb (mb + 1) = (s', n, m)"
    by (cases "syncLoop k api after sx nb (mb + 1)") auto
  from h l have "syncLoop k api (before @ x # after) s 0 0 = (s', n, m)"
    by (simp add: syncLoop_append)
  with h l show "\<exists>s' n m. syncLoop k api after sx nb (mb + 1) = (s', n, m)
               \<and> syncFromPMS env k api s = (Inr \<lparr>synced = n, errors = m\<rparr>, s')"
    by (simp add: syncFromPMS_def syncAll_def)
next
  assume h: "fst (resolveGuest k api x s) = Inl message"
  then show "syncReservation k api x s = (Inl message, s)"
    by (rule syncReservation_guest_fail)
  from h show "syncLoop k api (x # rest) s n0 m0 = syncLoop k api rest s n0 (m0 + 1)"
    by (simp add: syncReservation_guest_fail)
next
  assume h: "\<not> falsy (PMS_API_URL env) \<and> \<not> falsy (PMS_API_KEY env)
        \<and> listReservations api = Inr [r1, r2, r3, r4, r5]
        \<and> syncReservation k api r1 s = (Inr (), s1)
        \<and> syncReservation k api r2 s1 = (Inr (), s2)
        \<and> fst (resolveGuest k api r3 s2) = Inl message
        \<and> syncReservation k api r4 s2 = (Inr (), s4)
        \<and> syncReservation k api r5 s4 = (Inr (), s5)"
  then have e1: "syncReservation k api r1 s = (Inr (), s1)"
    and e2: "syncReservation k api r2 s1 = (Inr (), s2)"
    and e3: "syncReservation k api r3 s2 = (Inl message, s2)"
    and e4: "syncReservation k api r4 s2 = (Inr (), s4)"
    and e5: "syncReservation k api r5 s4 = (Inr (), s5)"
    by (simp_all add: syncReservation_guest_fail)
  have h1: "hasReservation s1 (pr_id r1)" using e1 by (rule syncReservation_has)
  have h2: "hasReservation s2 (pr_id r2)" using e2 by (rule syncReservation_has)
  have h4: "hasReservation s4 (pr_id r4)" using e4 by (rule syncReservation_has)
  have h5: "hasReservation s5 (pr_id r5)" using e5 by (rule syncReservation_has)
  note k2 = syncReservation_keeps' [OF e2]
  note k4 = syncReservation_keeps' [OF e4]
  note k5 = syncReservation_keeps' [OF e5]
  show "syncFromPMS env k api s = (Inr \<lparr>synced = 4, errors = 1\<rparr>, s5)"
    using h e1 e2 e3 e4 e5 by (simp add: syncFromPMS_def syncAll_def)
  show "hasReservation s5 (pr_id r1)" using h1 k2 k4 k5 by blast
  show "hasReservation s5 (pr_id r2)" using h2 k4 k5 by blast
  show "hasReservation s5 (pr_id r4)" using h4 k5 by blast
  show "hasReservation s5 (pr_id r5)" using h5 .
qed

theorem syncFromPMS_isolates_failures_witness:
  "syncFromPMS samplePmsEnv strictSchema unreachablePms sampleStore
     = (Inr \<lparr>synced = 0, errors = 1\<rparr>, sampleStore)
   \<and> fst (syncFromPMS samplePmsEnv strictSchema samplePms emptyStore)
       = Inr \<lparr>synced = 4, errors = 1\<rparr>
   \<and> map r_externalId (reservations (snd (syncFromPMS samplePmsEnv strictSchema samplePms emptyStore)))
       = [Some ''R1'', Some ''R2'', Some ''R4'', Some ''R5'']
   \<and> syncLoop strictSchema samplePms
         [samplePmsReservation ''R3'' ''3'', samplePmsReservation ''R4'' ''4''] emptyStore 2 0
       = syncLoop strictSchema samplePms [samplePmsReservation ''R4'' ''4''] emptyStore 2 1
   \<and> fst (syncFromPMS samplePmsEnv strictSchema invalidDatePms emptyStore)
       = Inr \<lparr>synced = 2, errors = 1\<rparr>
   \<and> map r_externalId (reservations (snd (syncFromPMS samplePmsEnv strictSchema invalidDatePms emptyStore)))
       = [Some ''R1'', Some ''R2'']"
proof -
  let ?r = "\<lambda>n. samplePmsReservation (''R'' @ n) n"
  let ?step = "\<lambda>n s. snd (syncReservation strictSchema samplePms (?r n) s)"
  let ?s1 = "?step ''1'' emptyStore"
  let ?s2 = "?step ''2'' ?s1"
  let ?s4 = "?step ''4'' ?s2"
  let ?s5 = "?step ''5'' ?s4"
  have cfg: "\<not> falsy (PMS_API_URL samplePmsEnv)" "\<not> falsy (PMS_API_KEY samplePmsEnv)" by code_simp+
  have down: "listReservations unreachablePms = Inl ''Network Error''" by code_simp
  have l: "listReservations samplePms = Inr [?r ''1'', ?r ''2'', ?r ''3'', ?r ''4'', ?r ''5'']"
    by code_simp
  have e1: "syncReservation strictSchema samplePms (?r ''1'') emptyStore = (Inr (), ?s1)" by code_simp
  have e2: "syncReservation strictSchema samplePms (?r ''2'') ?s1 = (Inr (), ?s2)" by code_simp
  have e3: "fst (resolveGuest strictSchema samplePms (?r ''3'') ?s2) = Inl ''Request failed with status code 500''"
    by code_simp
  have e4: "syncReservation strictSchema samplePms (?r ''4'') ?s2 = (Inr (), ?s4)" by code_simp
  have e5: "syncReservation strictSchema samplePms (?r ''5'') ?s4 = (Inr (), ?s5)" by code_simp
  have ids: "map r_externalId (reservations ?s5) = [Some ''R1'', Some ''R2'', Some ''R4'', Some ''R5'']"
    by code_simp
  note t1 = syncFromPMS_isolates_failures [of samplePmsEnv strictSchema unreachablePms sampleStore
      "''Network Error''"]
  note t2 = syncFromPMS_isolates_failures [of samplePmsEnv strictSchema samplePms emptyStore
      "''Request failed with status code 500''" _ _ _ _ _ _ _ _ _ _ _
      "?r ''1''" "?r ''2''" "?r ''3''" "?r ''4''" "?r ''5''" ?s1 ?s2 ?s4 ?s5]
  from t1 cfg down have a: "syncFromPMS samplePmsEnv strictSchema unreachablePms sampleStore
     = (Inr \<lparr>synced = 0, errors = 1\<rparr>, sampleStore)" by blast
  from t2 cfg l e1 e2 e3 e4 e5
  have b: "syncFromPMS samplePmsEnv strictSchema samplePms emptyStore = (Inr \<lparr>synced = 4, errors = 1\<rparr>, ?s5)"
    by blast
  have e0: "fst (resolveGuest strictSchema samplePms (?r ''3'') emptyStore)
              = Inl ''Request failed with status code 500''"
    by code_simp
  note t3 = syncFromPMS_isolates_failures [of samplePmsEnv strictSchema samplePms emptyStore
      "''Request failed with status code 500''" _ _ "?r ''3''" _ _ _ _ _ "[?r ''4'']" 2 0]
  from t3 e0 have c: "syncLoop strictSchema samplePms [?r ''3'', ?r ''4''] emptyStore 2 0
       = syncLoop strictSchema samplePms [?r ''4''] emptyStore 2 1"
    by simp
  let ?bad = "(samplePmsReservation ''R0'' ''9'')\<lparr>pr_checkInDate := ''tomorrow''\<rparr>"
  let ?sx = "snd (syncReservation strictSchema invalidDatePms ?bad emptyStore)"
  let ?end = "fst (syncLoop strictSchema invalidDatePms [?r ''1'', ?r ''2''] ?sx 0 1)"
  have l': "listReservations invalidDatePms = Inr ([] @ ?bad # [?r ''1'', ?r ''2''])" by code_simp
  have b0: "syncLoop strictSchema invalidDatePms [] emptyStore 0 0 = (emptyStore, 0, 0)" by simp
  have bx: "syncReservation strictSchema invalidDatePms ?bad emptyStore
              = (Inl ''Invalid value provided'', ?sx)" by code_simp
  have rest: "syncLoop strictSchema invalidDatePms [?r ''1'', ?r ''2''] ?sx 0 (0 + 1) = (?end, 2, 1)"
    by code_simp
  have ids': "map r_externalId (reservations ?end) = [Some ''R1'', Some ''R2'']" by code_simp
  note t4 = syncFromPMS_isolates_failures [of samplePmsEnv strictSchema invalidDatePms emptyStore
      "''Invalid value provided''" _ "[]" ?bad "[?r ''1'', ?r ''2'']" emptyStore 0 0 ?sx]
  from t4 cfg l' b0 bx
  have "\<exists>s' n m. syncLoop strictSchema invalidDatePms [?r ''1'', ?r ''2''] ?sx 0 (0 + 1) = (s', n, m)
          \<and> syncFromPMS samplePmsEnv strictSchema invalidDatePms emptyStore
               = (Inr \<lparr>synced = n, errors = m\<rparr>, s')"
    by blast
  with rest have d: "syncFromPMS samplePmsEnv strictSchema invalidDatePms emptyStore
               = (Inr \<lparr>synced = 2, errors = 1\<rparr>, ?end)" by auto
  from a b c d ids ids' show ?thesis by simp
qed




subsection \<open>Wake-up dispatch\<close>







lemma wake_update_reservations:
  "reservations (wakeUpRequest_update k f s) = reservations s"
  by (simp add: wakeUpRequest_update_def)






lemma findWakeUp_in:
  "findWakeUp i s = Some w \<Longrightarrow> w \<in> set (wakeUpRequests s) \<and> w_id w = i"
  by (auto simp: findWakeUp_def find_Some_iff)







text \<open>
  C7 on the code. The request of \<open>wakeUpStore\<close> is swept three times with a gateway
  that fails: one minute apart on date-fns 3.x and 4.x, and at the instant of the
  request on any release. After the second failed attempt the request is still
  pending, with an attempt count of 2; the third sweep selects it again, finds its
  reservation and calls the gateway a third time; only then is it marked failed, with
  an attempt count of 3. The failure branch tests the attempt count read by the query,
  before the increment of the same iteration.
\<close>

theorem wake_up_third_attempt:
  "findWakeUp 1 (failingSweep DateFns3 1764060000 (failingSweep DateFns3 1764000000 wakeUpStore))
     = Some \<lparr>w_id = 1, w_roomNumber = ''101'', w_requestedTime = 1764000000,
             w_status = PENDING, w_attempts = 2, w_completedAt = None\<rparr>
   \<and> list_ex (\<lambda>w. w_id w = 1)
        (wakeUpDue (fiveMinutesAgo DateFns3 1764120000) 1764120000
           (failingSweep DateFns3 1764060000 (failingSweep DateFns3 1764000000 wakeUpStore)))
   \<and> checkedInReservation ''101''
        (failingSweep DateFns3 1764060000 (failingSweep DateFns3 1764000000 wakeUpStore))
       \<noteq> None
   \<and> findWakeUp 1 (failingSweep DateFns3 1764120000
                     (failingSweep DateFns3 1764060000 (failingSweep DateFns3 1764000000 wakeUpStore)))
     = Some \<lparr>w_id = 1, w_roomNumber = ''101'', w_requestedTime = 1764000000,
             w_status = WU_FAILED, w_attempts = 3, w_completedAt = None\<rparr>
   \<and> findWakeUp 1 (failingSweep DateFns2 1764000000 (failingSweep DateFns2 1764000000 wakeUpStore))
     = Some \<lparr>w_id = 1, w_roomNumber = ''101'', w_requestedTime = 1764000000,
             w_status = PENDING, w_attempts = 2, w_completedAt = None\<rparr>
   \<and> list_ex (\<lambda>w. w_id w = 1)
        (wakeUpDue (fiveMinutesAgo DateFns2 1764000000) 1764000000
           (failingSweep DateFns2 1764000000 (failingSweep DateFns2 1764000000 wakeUpStore)))
   \<and> findWakeUp 1 (failingSweep DateFns2 1764000000
                     (failingSweep DateFns2 1764000000 (failingSweep DateFns2 1764000000 wakeUpStore)))
     = Some \<lparr>w_id = 1, w_roomNumber = ''101'', w_requestedTime = 1764000000,
             w_status = WU_FAILED, w_attempts = 3, w_completedAt = None\<rparr>"
  by code_simp

end
